theory Spec2Isabelle
  imports Main "HOL-Library.Word"
begin

section \<open>The cancellation table (mnnllmnative.cpp, lines 35-56)\<close>

text \<open>
  A \<open>jlong\<close> is a 64-bit integer; the handles are native addresses cast to it, and
  the only arithmetic fact the code uses is the comparison against zero.
  \<open>gCancelFlags\<close> is a \<open>std::map<jlong, bool>\<close>: a finite map from handles to
  flags. Every operation takes \<open>gCancelMutex\<close> for its whole body, so each one is an
  atomic step on the table and is modelled as a function from the table to the table.
\<close>

type_synonym jlong = "64 word"

type_synonym cancel_table = "jlong \<rightharpoonup> bool"

definition setCancelFlag :: "cancel_table \<Rightarrow> jlong \<Rightarrow> bool \<Rightarrow> cancel_table" where
  "setCancelFlag gCancelFlags p v = gCancelFlags(p \<mapsto> v)"

definition checkCancelFlag :: "cancel_table \<Rightarrow> jlong \<Rightarrow> bool" where
  "checkCancelFlag gCancelFlags p =
     (case gCancelFlags p of None \<Rightarrow> False | Some v \<Rightarrow> v)"

definition clearCancelFlag :: "cancel_table \<Rightarrow> jlong \<Rightarrow> cancel_table" where
  "clearCancelFlag gCancelFlags p = gCancelFlags(p := None)"

text \<open>\<open>nativeCancel\<close> (lines 504-513): the zero handle returns at once.\<close>

definition nativeCancel :: "cancel_table \<Rightarrow> jlong \<Rightarrow> cancel_table" where
  "nativeCancel gCancelFlags p =
     (if p = 0 then gCancelFlags else setCancelFlag gCancelFlags p True)"

section \<open>The streaming relay (mnnllmnative.cpp, lines 248-498)\<close>

subsection \<open>The Java side, as seen from one flush\<close>

text \<open>
  \<open>flushToCallback\<close> asks the Java VM for an environment, attaches the thread when
  it is detached, builds a Java string and calls the consumer's \<open>onToken\<close>. What the
  VM and the consumer answer is not decided by this code, so the answers are a
  parameter: \<open>jvm i\<close> is what the Java side answers at the \<open>i\<close>-th flush that
  reaches \<open>GetEnv\<close>. \<open>JNI_ERR\<close> stands for every status other than
  \<open>JNI_OK\<close> and \<open>JNI_EDETACHED\<close>; the code tells no others apart. The chunk a
  call receives is recorded as the bytes handed to \<open>NewStringUTF\<close>.
\<close>

datatype jni_status = JNI_OK | JNI_EDETACHED | JNI_ERR

datatype callback_outcome =
    Returned bool      \<comment> \<open>\<open>onToken\<close> returned, no Java exception pending\<close>
  | JavaException      \<comment> \<open>\<open>ExceptionCheck\<close> is true after the call\<close>
  | CppException       \<comment> \<open>a C++ exception reached \<open>catch (...)\<close>\<close>

record flush_reply =
  getEnv :: jni_status
  attachCurrentThread :: jni_status
  newStringUTF_ok :: bool
  callBooleanMethod :: callback_outcome

type_synonym java_side = "nat \<Rightarrow> flush_reply"

subsection \<open>The stream context\<close>

text \<open>
  \<open>buffer\<close>, \<open>shouldStop\<close> and \<open>llmPtr\<close> are the fields of \<open>StreamContext\<close>.
  Its three JNI handles (\<open>jvm\<close>, \<open>callbackGlobalRef\<close>, \<open>onTokenMethod\<close>) are
  opaque; what is done through them is recorded instead: \<open>attempts\<close> counts the
  flushes that reached \<open>GetEnv\<close>, and \<open>delivered\<close> lists the calls of
  \<open>onToken\<close> in order, each with the chunk it received and how the call ended.
\<close>

record StreamContext =
  buffer :: string
  shouldStop :: bool
  llmPtr :: jlong
  attempts :: nat
  delivered :: "(string \<times> callback_outcome) list"

text \<open>
  \<open>NewStringUTF\<close> receives \<open>buffer.c_str()\<close>, a NUL-terminated C string: it reads
  the bytes before the first NUL byte.
\<close>

definition c_str :: "string \<Rightarrow> string" where
  "c_str s = takeWhile (\<lambda>ch. ch \<noteq> CHR 0x00) s"

text \<open>\<open>CallbackStream::flushToCallback\<close> (lines 347-403).\<close>

definition flushToCallback :: "java_side \<Rightarrow> StreamContext \<Rightarrow> StreamContext" where
  "flushToCallback jvm c =
     (if buffer c = [] \<or> shouldStop c then c
      else
        let r = jvm (attempts c);
            c1 = c\<lparr>attempts := Suc (attempts c)\<rparr>
        in
          if getEnv r = JNI_EDETACHED \<and> attachCurrentThread r \<noteq> JNI_OK then c1
          else if getEnv r \<noteq> JNI_EDETACHED \<and> getEnv r \<noteq> JNI_OK then c1
          else if newStringUTF_ok r then
            (case callBooleanMethod r of
               Returned shouldContinue \<Rightarrow>
                 c1\<lparr>delivered := delivered c @ [(c_str (buffer c), Returned shouldContinue)],
                    shouldStop := (if \<not> shouldContinue then True else shouldStop c),
                    buffer := []\<rparr>
             | JavaException \<Rightarrow>
                 c1\<lparr>delivered := delivered c @ [(c_str (buffer c), JavaException)],
                    shouldStop := True,
                    buffer := []\<rparr>
             | CppException \<Rightarrow>
                 c1\<lparr>delivered := delivered c @ [(c_str (buffer c), CppException)],
                    shouldStop := True,
                    buffer := []\<rparr>)
          else c1\<lparr>buffer := []\<rparr>)"

subsection \<open>The flush decision of \<open>xsputn\<close> (lines 422-450)\<close>

definition isAsciiDelimiter :: "char \<Rightarrow> bool" where
  "isAsciiDelimiter ch =
     (ch = CHR 0x0A \<or> ch = CHR ''.'' \<or> ch = CHR ''!'' \<or> ch = CHR ''?'')"

definition uchar :: "char \<Rightarrow> nat" where
  "uchar ch = of_char ch"

definition isFullWidthEnd :: "string \<Rightarrow> bool" where
  "isFullWidthEnd buf =
     (let c1 = uchar (buf ! (length buf - 3));
          c2 = uchar (buf ! (length buf - 2));
          c3 = uchar (buf ! (length buf - 1))
      in (c1 = 0xE3 \<and> c2 = 0x80 \<and> c3 = 0x82) \<or>
         (c1 = 0xEF \<and> c2 = 0xBC \<and> c3 = 0x81) \<or>
         (c1 = 0xEF \<and> c2 = 0xBC \<and> c3 = 0x9F))"

text \<open>
  \<open>buf\<close> is the buffer after the append, \<open>s\<close> the bytes just written. The loop
  over \<open>s\<close> stops at the first delimiter, so it computes an existential.
\<close>

definition shouldFlush :: "string \<Rightarrow> string \<Rightarrow> bool" where
  "shouldFlush buf s =
     (if length buf \<ge> 16 then True
      else if list_ex isAsciiDelimiter s then True
      else if length buf \<ge> 3 then isFullWidthEnd buf
      else False)"

subsection \<open>\<open>CallbackStream::xsputn\<close> (lines 407-457)\<close>

text \<open>
  A write is the byte string \<open>s\<close>; its length is the \<open>n\<close> of the source. The result
  is the context after the write and the number of bytes reported as accepted.
\<close>

definition xsputn ::
  "cancel_table \<Rightarrow> java_side \<Rightarrow> StreamContext \<Rightarrow> string \<Rightarrow> StreamContext \<times> int" where
  "xsputn gCancelFlags jvm c s =
     (let n = int (length s) in
      if shouldStop c \<or> checkCancelFlag gCancelFlags (llmPtr c) \<or> n \<le> 0 then
        ((if checkCancelFlag gCancelFlags (llmPtr c) then c\<lparr>shouldStop := True\<rparr> else c), 0)
      else
        let c1 = c\<lparr>buffer := buffer c @ s\<rparr> in
        ((if shouldFlush (buffer c1) s then flushToCallback jvm c1 else c1), n))"

subsection \<open>The engine's blocking call\<close>

text \<open>
  \<open>llm->response\<close> is the external engine. While it runs it writes to the sink, and
  other threads may call \<open>nativeCancel\<close>; the table's mutex orders these steps. One
  run of the engine is therefore a sequence of events, each a write or a cancel request
  of some thread, and it ends by returning or by throwing.
\<close>

datatype sink_event = Write string | Cancel jlong

datatype engine_exit = Returns | ThrowsStdException | ThrowsUnknown

fun response ::
  "java_side \<Rightarrow> sink_event list \<Rightarrow> cancel_table \<times> StreamContext \<Rightarrow> cancel_table \<times> StreamContext" where
  "response jvm [] gc = gc"
| "response jvm (Write s # es) (g, c) = response jvm es (g, fst (xsputn g jvm c s))"
| "response jvm (Cancel p # es) (g, c) = response jvm es (nativeCancel g p, c)"

subsection \<open>\<open>nativeGenerateStream\<close> (lines 257-498)\<close>

text \<open>
  The three JNI calls that precede the registration of the flag can each fail, and each
  failure returns \<open>JNI_FALSE\<close> at once. The history list and \<open>maxTokens\<close> are only
  handed to the engine and do not appear.
\<close>

record jni_setup =
  getJavaVM_ok :: bool
  onTokenMethod_found :: bool
  newGlobalRef_ok :: bool

record stream_result =
  returned :: bool
  flags :: cancel_table
  chunks :: "(string \<times> callback_outcome) list"

definition initialContext :: "jlong \<Rightarrow> StreamContext" where
  "initialContext p =
     \<lparr>buffer = [], shouldStop = False, llmPtr = p, attempts = 0, delivered = []\<rparr>"

definition finalFlush :: "java_side \<Rightarrow> StreamContext \<Rightarrow> StreamContext" where
  "finalFlush jvm c =
     (if buffer c \<noteq> [] \<and> \<not> shouldStop c then flushToCallback jvm c else c)"

text \<open>
  Lines 338-467: the flag of the handle is set to false, a fresh context is built and
  the engine runs against it.
\<close>

definition runResponse ::
  "java_side \<Rightarrow> cancel_table \<Rightarrow> jlong \<Rightarrow> sink_event list \<Rightarrow> cancel_table \<times> StreamContext" where
  "runResponse jvm gCancelFlags p events =
     response jvm events (setCancelFlag gCancelFlags p False, initialContext p)"

definition nativeGenerateStream ::
  "jni_setup \<Rightarrow> java_side \<Rightarrow> cancel_table \<Rightarrow> jlong \<Rightarrow> sink_event list \<Rightarrow> engine_exit
     \<Rightarrow> stream_result" where
  "nativeGenerateStream setup jvm gCancelFlags p events exit =
     (if p = 0 then \<lparr>returned = False, flags = gCancelFlags, chunks = []\<rparr>
      else if \<not> getJavaVM_ok setup then \<lparr>returned = False, flags = gCancelFlags, chunks = []\<rparr>
      else if \<not> onTokenMethod_found setup then
        \<lparr>returned = False, flags = gCancelFlags, chunks = []\<rparr>
      else if \<not> newGlobalRef_ok setup then
        \<lparr>returned = False, flags = gCancelFlags, chunks = []\<rparr>
      else
        let (g2, c) = runResponse jvm gCancelFlags p events
        in case exit of
             Returns \<Rightarrow>
               \<lparr>returned = True, flags = clearCancelFlag g2 p,
                chunks = delivered (finalFlush jvm c)\<rparr>
           | ThrowsStdException \<Rightarrow>
               \<lparr>returned = False, flags = clearCancelFlag g2 p, chunks = delivered c\<rparr>
           | ThrowsUnknown \<Rightarrow>
               \<lparr>returned = False, flags = clearCancelFlag g2 p, chunks = delivered c\<rparr>)"

section \<open>Tensor data setters (mnnmodulennative.cpp, lines 226-288)\<close>

text \<open>
  A \<open>jfloat\<close> and a \<open>jint\<close> are both four bytes, and the setters only copy them, so
  an element is its 32-bit pattern. \<open>host\<close> is the storage of the variable that the
  handle points to. \<open>writeMap\<close> belongs to the external engine: it gives a pointer to
  that storage, or null, or throws.
\<close>

type_synonym elem = "32 word"

datatype writeMap_result = Ptr | NullPtr | WriteMapThrowsStd | WriteMapThrowsOther

datatype crash = BufferOverrun | UncaughtException

definition memcpy_elems :: "elem list \<Rightarrow> elem list \<Rightarrow> crash + elem list" where
  "memcpy_elems host data =
     (if length data \<le> length host then Inr (data @ drop (length data) host)
      else Inl BufferOverrun)"

definition nativeSetVarFloatData ::
  "jlong \<Rightarrow> elem list \<Rightarrow> writeMap_result \<Rightarrow> elem list \<Rightarrow> crash + (bool \<times> elem list)" where
  "nativeSetVarFloatData varPtr host wm jdata =
     (if varPtr = 0 then Inr (False, host)
      else case wm of
          Ptr \<Rightarrow> (case memcpy_elems host jdata of
                    Inl e \<Rightarrow> Inl e
                  | Inr host' \<Rightarrow> Inr (True, host'))
        | NullPtr \<Rightarrow> Inr (True, host)
        | WriteMapThrowsStd \<Rightarrow> Inr (False, host)
        | WriteMapThrowsOther \<Rightarrow> Inl UncaughtException)"

definition nativeSetVarIntData ::
  "jlong \<Rightarrow> elem list \<Rightarrow> writeMap_result \<Rightarrow> elem list \<Rightarrow> crash + (bool \<times> elem list)" where
  "nativeSetVarIntData varPtr host wm jdata =
     (if varPtr = 0 then Inr (False, host)
      else case wm of
          Ptr \<Rightarrow> (case memcpy_elems host jdata of
                    Inl e \<Rightarrow> Inl e
                  | Inr host' \<Rightarrow> Inr (True, host'))
        | NullPtr \<Rightarrow> Inr (True, host)
        | WriteMapThrowsStd \<Rightarrow> Inr (False, host)
        | WriteMapThrowsOther \<Rightarrow> Inl UncaughtException)"

section \<open>Vocabulary of the properties\<close>

text \<open>
  A flush reaches the consumer when the environment is obtained (directly, or by
  attaching the thread) and the Java string is created.
\<close>

definition reachesConsumer :: "flush_reply \<Rightarrow> bool" where
  "reachesConsumer r =
     ((getEnv r = JNI_OK \<or> (getEnv r = JNI_EDETACHED \<and> attachCurrentThread r = JNI_OK)) \<and>
      newStringUTF_ok r)"

text \<open>
  The environment is obtained when \<open>GetEnv\<close> succeeds, or reports a detached
  thread and \<open>AttachCurrentThread\<close> succeeds.
\<close>

definition envObtained :: "flush_reply \<Rightarrow> bool" where
  "envObtained r =
     (getEnv r = JNI_OK \<or> (getEnv r = JNI_EDETACHED \<and> attachCurrentThread r = JNI_OK))"

text \<open>The text the engine wrote to the sink during a run, in order.\<close>

fun written :: "sink_event list \<Rightarrow> string" where
  "written [] = []"
| "written (Write s # es) = s @ written es"
| "written (Cancel q # es) = written es"

definition noNul :: "string \<Rightarrow> bool" where
  "noNul s = (CHR 0x00 \<notin> set s)"

text \<open>What the consumer has received so far, followed by what is still buffered.\<close>

definition text_of :: "StreamContext \<Rightarrow> string" where
  "text_of c = concat (map fst (delivered c)) @ buffer c"

definition answeredTrue :: "(string \<times> callback_outcome) list \<Rightarrow> bool" where
  "answeredTrue d = list_all (\<lambda>x. snd x = Returned True) d"

text \<open>
  The invariant of the stop latch: while the latch is open every call of the consumer
  has returned true; once it is closed, every call but the last has.
\<close>

definition latchInv :: "StreamContext \<Rightarrow> bool" where
  "latchInv c =
     (if shouldStop c then answeredTrue (butlast (delivered c))
      else answeredTrue (delivered c))"

subsection \<open>Sample environments\<close>

definition setupOk :: jni_setup where
  "setupOk = \<lparr>getJavaVM_ok = True, onTokenMethod_found = True, newGlobalRef_ok = True\<rparr>"

definition setupNoMethod :: jni_setup where
  "setupNoMethod =
     \<lparr>getJavaVM_ok = True, onTokenMethod_found = False, newGlobalRef_ok = True\<rparr>"

definition cooperative :: java_side where
  "cooperative = (\<lambda>i. \<lparr>getEnv = JNI_OK, attachCurrentThread = JNI_OK,
                        newStringUTF_ok = True, callBooleanMethod = Returned True\<rparr>)"

definition refusing :: java_side where
  "refusing = (\<lambda>i. \<lparr>getEnv = JNI_OK, attachCurrentThread = JNI_OK,
                      newStringUTF_ok = True, callBooleanMethod = Returned False\<rparr>)"

definition stringFails :: java_side where
  "stringFails = (\<lambda>i. \<lparr>getEnv = JNI_OK, attachCurrentThread = JNI_OK,
                         newStringUTF_ok = False, callBooleanMethod = Returned True\<rparr>)"

text \<open>
  A Java side on which \<open>GetEnv\<close> fails at the \<open>k\<close>-th flush attempt and every
  other call succeeds.
\<close>

definition envFailsAt :: "nat \<Rightarrow> java_side" where
  "envFailsAt k =
     (\<lambda>i. \<lparr>getEnv = (if i = k then JNI_ERR else JNI_OK), attachCurrentThread = JNI_OK,
           newStringUTF_ok = True, callBooleanMethod = Returned True\<rparr>)"

section \<open>The cancellation table\<close>

text \<open>
  Claim C7. \<open>checkCancelFlag\<close> returns the stored flag when the handle has an
  entry and false when it has none; after \<open>clearCancelFlag\<close> of a handle it returns
  false for that handle, whatever the table held before; clearing a handle that has no
  entry leaves the table as it was.
\<close>

theorem checkCancelFlag_spec:
  "(g p = Some v \<longrightarrow> checkCancelFlag g p = v) \<and>
   (g p = None \<longrightarrow> checkCancelFlag g p = False) \<and>
   checkCancelFlag (clearCancelFlag g p) p = False \<and>
   (g p = None \<longrightarrow> clearCancelFlag g p = g)"
  by (auto simp: checkCancelFlag_def clearCancelFlag_def)

theorem checkCancelFlag_spec_witness:
  "checkCancelFlag [7 \<mapsto> True] 7 = True \<and>
   checkCancelFlag (clearCancelFlag [7 \<mapsto> True] 7) 7 = False \<and>
   checkCancelFlag Map.empty 7 = False \<and>
   clearCancelFlag Map.empty 7 = Map.empty"
  using checkCancelFlag_spec [of "[7 \<mapsto> True]" 7 True]
    checkCancelFlag_spec [of Map.empty 7 True]
  by simp

text \<open>
  Claim C2, as stated, fails: a cancel request for a non-zero handle that has no entry
  creates the entry, with the value true.
\<close>

theorem nativeCancel_creates_entry:
  "(7 :: jlong) \<noteq> 0 \<and> (Map.empty :: cancel_table) 7 = None \<and>
   nativeCancel Map.empty 7 7 = Some True \<and>
   nativeCancel Map.empty 7 \<noteq> Map.empty"
proof -
  have a: "nativeCancel Map.empty 7 7 = Some True"
    by (simp add: nativeCancel_def setCancelFlag_def)
  have "nativeCancel Map.empty 7 7 \<noteq> (Map.empty :: cancel_table) 7"
    unfolding a by simp
  then have "nativeCancel Map.empty 7 \<noteq> Map.empty"
    by metis
  with a show ?thesis by simp
qed

text \<open>
  Claim C2 (amended). For every non-zero handle, \<open>nativeCancel\<close> stores the value
  true under that handle, creating the entry when there is none, and leaves every other
  handle's entry as it was; the flag of the handle then reads true. Only for the zero
  handle is the call a no-op on the table. No call raises an error.
\<close>

theorem nativeCancel_stores_true:
  "(p \<noteq> 0 \<longrightarrow>
      nativeCancel g p = g(p \<mapsto> True) \<and>
      checkCancelFlag (nativeCancel g p) p = True \<and>
      (\<forall>q. q \<noteq> p \<longrightarrow> nativeCancel g p q = g q)) \<and>
   nativeCancel g 0 = g"
  by (simp add: nativeCancel_def setCancelFlag_def checkCancelFlag_def)

theorem nativeCancel_stores_true_witness:
  "nativeCancel Map.empty 7 = [7 \<mapsto> True] \<and>
   checkCancelFlag (nativeCancel Map.empty 7) 7 = True \<and>
   nativeCancel [7 \<mapsto> False] 0 = [7 \<mapsto> False]"
  using nativeCancel_stores_true [of 7 Map.empty]
    nativeCancel_stores_true [of 7 "[7 \<mapsto> False]"]
  by (simp add: checkCancelFlag_def)

section \<open>The flush decision\<close>

lemma last_three:
  assumes "3 \<le> length buf"
  shows "drop (length buf - 3) buf =
           [buf ! (length buf - 3), buf ! (length buf - 2), buf ! (length buf - 1)]"
proof -
  obtain ys c where 1: "buf = ys @ [c]"
    using assms by (cases buf rule: rev_cases) auto
  obtain zs b where 2: "ys = zs @ [b]"
    using assms 1 by (cases ys rule: rev_cases) auto
  obtain ws a where 3: "zs = ws @ [a]"
    using assms 1 2 by (cases zs rule: rev_cases) auto
  show ?thesis
    by (simp add: 1 2 3 nth_append)
qed

lemma isFullWidthEnd_bytes:
  "3 \<le> length buf \<Longrightarrow>
     isFullWidthEnd buf =
       (map uchar (drop (length buf - 3) buf) \<in>
          {[0xE3, 0x80, 0x82], [0xEF, 0xBC, 0x81], [0xEF, 0xBC, 0x9F]})"
  by (simp add: isFullWidthEnd_def last_three Let_def)



section \<open>The stop latch\<close>

lemma latch_fix: "shouldStop c \<Longrightarrow> c\<lparr>shouldStop := True\<rparr> = c"
  by (cases c) simp

lemma flushToCallback_stopped: "shouldStop c \<Longrightarrow> flushToCallback jvm c = c"
  by (simp add: flushToCallback_def)

lemma xsputn_stopped: "shouldStop c \<Longrightarrow> xsputn g jvm c s = (c, 0)"
  by (simp add: xsputn_def latch_fix)

lemma finalFlush_stopped: "shouldStop c \<Longrightarrow> finalFlush jvm c = c"
  by (simp add: finalFlush_def)

lemma response_stopped: "shouldStop c \<Longrightarrow> snd (response jvm es (g, c)) = c"
proof (induction es arbitrary: g)
  case Nil
  show ?case by simp
next
  case (Cons e es)
  show ?case
  proof (cases e)
    case (Write s)
    with Cons show ?thesis by (simp add: xsputn_stopped)
  next
    case (Cancel q)
    with Cons show ?thesis by simp
  qed
qed

lemma xsputn_cancelled:
  "checkCancelFlag g (llmPtr c) \<Longrightarrow> xsputn g jvm c s = (c\<lparr>shouldStop := True\<rparr>, 0)"
  by (simp add: xsputn_def)

text \<open>
  Claim C6. When a write finds the cancellation flag of the request's handle set, it
  reports zero bytes accepted, leaves the buffer and the consumer's calls as they were
  and closes the latch. After it, whatever the engine writes and whatever the table
  then holds, every write reports zero bytes and changes nothing, and the final flush
  changes nothing either. No step has an error result.
\<close>

theorem cancel_observed_drops_writes:
  assumes "checkCancelFlag g (llmPtr c)"
  shows "xsputn g jvm c s = (c\<lparr>shouldStop := True\<rparr>, 0) \<and>
         buffer (fst (xsputn g jvm c s)) = buffer c \<and>
         delivered (fst (xsputn g jvm c s)) = delivered c \<and>
         (\<forall>es g' g'' s'.
            xsputn g'' jvm (snd (response jvm es (g', fst (xsputn g jvm c s)))) s' =
              (fst (xsputn g jvm c s), 0)) \<and>
         (\<forall>es g'.
            finalFlush jvm (snd (response jvm es (g', fst (xsputn g jvm c s)))) =
              fst (xsputn g jvm c s))"
  using assms
  by (simp add: xsputn_cancelled response_stopped xsputn_stopped finalFlush_stopped)

theorem cancel_observed_drops_writes_witness:
  "checkCancelFlag [7 \<mapsto> True] (llmPtr ((initialContext 7)\<lparr>buffer := ''ab''\<rparr>)) \<and>
   snd (xsputn [7 \<mapsto> True] cooperative ((initialContext 7)\<lparr>buffer := ''ab''\<rparr>) ''cd'') = 0 \<and>
   buffer (fst (xsputn [7 \<mapsto> True] cooperative ((initialContext 7)\<lparr>buffer := ''ab''\<rparr>) ''cd''))
     = ''ab'' \<and>
   delivered (fst (xsputn [7 \<mapsto> True] cooperative ((initialContext 7)\<lparr>buffer := ''ab''\<rparr>) ''cd''))
     = []"
proof -
  have h: "checkCancelFlag [7 \<mapsto> True] (llmPtr ((initialContext 7)\<lparr>buffer := ''ab''\<rparr>))"
    by (simp add: checkCancelFlag_def initialContext_def)
  show ?thesis
    using h cancel_observed_drops_writes [OF h, of cooperative "''cd''"]
    by (simp add: initialContext_def)
qed

lemma flushToCallback_false:
  assumes "buffer c \<noteq> []" and "\<not> shouldStop c" and "reachesConsumer (jvm (attempts c))"
    and "callBooleanMethod (jvm (attempts c)) = Returned False"
  shows "flushToCallback jvm c =
           c\<lparr>attempts := Suc (attempts c),
             delivered := delivered c @ [(c_str (buffer c), Returned False)],
             shouldStop := True, buffer := []\<rparr>"
  using assms by (auto simp: flushToCallback_def reachesConsumer_def Let_def)

lemma answeredTrue_butlast: "answeredTrue d \<Longrightarrow> answeredTrue (butlast d)"
  by (auto simp: answeredTrue_def list_all_iff dest: in_set_butlastD)

lemma latchInv_butlast: "latchInv c \<Longrightarrow> answeredTrue (butlast (delivered c))"
  by (simp add: latchInv_def answeredTrue_butlast split: if_splits)

lemma latchInv_initial: "latchInv (initialContext p)"
  by (simp add: latchInv_def initialContext_def answeredTrue_def)

lemma latchInv_flush: "latchInv c \<Longrightarrow> latchInv (flushToCallback jvm c)"
  by (cases "callBooleanMethod (jvm (attempts c))")
     (auto simp: flushToCallback_def latchInv_def Let_def answeredTrue_def)

lemma latchInv_xsputn:
  assumes inv: "latchInv c"
  shows "latchInv (fst (xsputn g jvm c s))"
proof -
  have a: "latchInv (c\<lparr>shouldStop := True\<rparr>)"
    using latchInv_butlast [OF inv] by (simp add: latchInv_def)
  have b: "latchInv (c\<lparr>buffer := buffer c @ s\<rparr>)"
    using inv by (simp add: latchInv_def)
  show ?thesis
    using inv a b latchInv_flush [OF b, of jvm]
    by (simp add: xsputn_def Let_def)
qed

lemma latchInv_response: "latchInv c \<Longrightarrow> latchInv (snd (response jvm es (g, c)))"
proof (induction es arbitrary: g c)
  case Nil
  then show ?case by simp
next
  case (Cons e es)
  show ?case
  proof (cases e)
    case (Write s)
    then show ?thesis
      using Cons.IH [OF latchInv_xsputn [OF Cons.prems]] by simp
  next
    case (Cancel q)
    then show ?thesis
      using Cons.IH [OF Cons.prems] by simp
  qed
qed

lemma latchInv_finalFlush: "latchInv c \<Longrightarrow> latchInv (finalFlush jvm c)"
  by (simp add: finalFlush_def latchInv_flush)

lemma chunks_answered:
  "answeredTrue (butlast (chunks (nativeGenerateStream setup jvm g p events exit)))"
proof -
  let ?c = "snd (runResponse jvm g p events)"
  have c: "latchInv ?c"
    unfolding runResponse_def by (rule latchInv_response [OF latchInv_initial])
  have f: "latchInv (finalFlush jvm ?c)"
    using c by (rule latchInv_finalFlush)
  show ?thesis
    using latchInv_butlast [OF c] latchInv_butlast [OF f]
    by (cases exit) (simp_all add: nativeGenerateStream_def split_beta answeredTrue_def)
qed

lemma not_true_is_last:
  assumes "answeredTrue (butlast d)" and "k < length d" and "snd (d ! k) \<noteq> Returned True"
  shows "Suc k = length d"
proof (rule ccontr)
  assume "Suc k \<noteq> length d"
  with assms(2) have k: "k < length (butlast d)" by simp
  then have "butlast d ! k \<in> set (butlast d)" by (rule nth_mem)
  with assms(1) have "snd (butlast d ! k) = Returned True"
    by (simp add: answeredTrue_def list_all_iff)
  with k assms(3) show False by (simp add: nth_butlast)
qed

text \<open>
  Claim C4. In every request, a call of the consumer that returned false is the last
  call of that request. The mechanism: the flush in which the consumer returns false
  closes the latch; from then on every write reports zero bytes and changes nothing,
  whatever the engine writes and whatever the table holds, and the final flush is
  skipped.
\<close>

theorem no_flush_after_false:
  "(\<forall>k. k < length (chunks (nativeGenerateStream setup jvm g p events exit)) \<longrightarrow>
        snd (chunks (nativeGenerateStream setup jvm g p events exit) ! k) = Returned False \<longrightarrow>
        Suc k = length (chunks (nativeGenerateStream setup jvm g p events exit))) \<and>
   (buffer c \<noteq> [] \<and> \<not> shouldStop c \<and> reachesConsumer (jvm (attempts c)) \<and>
    callBooleanMethod (jvm (attempts c)) = Returned False \<longrightarrow>
      shouldStop (flushToCallback jvm c) \<and>
      delivered (flushToCallback jvm c) =
        delivered c @ [(c_str (buffer c), Returned False)] \<and>
      (\<forall>es g' g'' s. xsputn g'' jvm (snd (response jvm es (g', flushToCallback jvm c))) s =
                       (flushToCallback jvm c, 0)) \<and>
      (\<forall>es g'. finalFlush jvm (snd (response jvm es (g', flushToCallback jvm c))) =
                 flushToCallback jvm c))"
proof (intro conjI allI impI)
  fix k
  assume "k < length (chunks (nativeGenerateStream setup jvm g p events exit))"
    and "snd (chunks (nativeGenerateStream setup jvm g p events exit) ! k) = Returned False"
  then show "Suc k = length (chunks (nativeGenerateStream setup jvm g p events exit))"
    using not_true_is_last [OF chunks_answered] by simp
next
  assume h: "buffer c \<noteq> [] \<and> \<not> shouldStop c \<and> reachesConsumer (jvm (attempts c)) \<and>
    callBooleanMethod (jvm (attempts c)) = Returned False"
  then have eq: "flushToCallback jvm c =
           c\<lparr>attempts := Suc (attempts c),
             delivered := delivered c @ [(c_str (buffer c), Returned False)],
             shouldStop := True, buffer := []\<rparr>"
    by (simp add: flushToCallback_false)
  then have st: "shouldStop (flushToCallback jvm c)" by simp
  show "shouldStop (flushToCallback jvm c)" by (rule st)
  show "delivered (flushToCallback jvm c) = delivered c @ [(c_str (buffer c), Returned False)]"
    using eq by simp
  show "\<And>es g' g'' s. xsputn g'' jvm (snd (response jvm es (g', flushToCallback jvm c))) s =
                       (flushToCallback jvm c, 0)"
    using st by (simp add: response_stopped xsputn_stopped)
  show "\<And>es g'. finalFlush jvm (snd (response jvm es (g', flushToCallback jvm c))) =
                 flushToCallback jvm c"
    using st by (simp add: response_stopped finalFlush_stopped)
qed

subsection \<open>Concrete runs\<close>

lemmas relay_eval =
  nativeGenerateStream_def runResponse_def initialContext_def xsputn_def shouldFlush_def
  isAsciiDelimiter_def isFullWidthEnd_def uchar_def flushToCallback_def finalFlush_def
  c_str_def checkCancelFlag_def setCancelFlag_def clearCancelFlag_def nativeCancel_def
  setupOk_def setupNoMethod_def cooperative_def refusing_def stringFails_def
  envFailsAt_def reachesConsumer_def envObtained_def noNul_def Let_def

lemma run_refused:
  "nativeGenerateStream setupOk refusing Map.empty 7 [Write ''Hello. '', Write '' there''] Returns =
     \<lparr>returned = True, flags = Map.empty, chunks = [(''Hello. '', Returned False)]\<rparr>"
  by (simp add: relay_eval)

lemma run_hello:
  "runResponse cooperative g 7 [Write ''Hello. '', Write '' there''] =
     (g(7 \<mapsto> False),
      \<lparr>buffer = '' there'', shouldStop = False, llmPtr = 7, attempts = 1,
       delivered = [(''Hello. '', Returned True)]\<rparr>)"
  by (simp add: relay_eval)

lemma run_hello_final:
  "finalFlush cooperative (snd (runResponse cooperative g 7 [Write ''Hello. '', Write '' there''])) =
     \<lparr>buffer = [], shouldStop = False, llmPtr = 7, attempts = 2,
      delivered = [(''Hello. '', Returned True), ('' there'', Returned True)]\<rparr>"
  by (simp add: run_hello) (simp add: relay_eval)

theorem no_flush_after_false_witness:
  "length (chunks (nativeGenerateStream setupOk refusing Map.empty 7
      [Write ''Hello. '', Write '' there''] Returns)) = 1 \<and>
   snd (chunks (nativeGenerateStream setupOk refusing Map.empty 7
      [Write ''Hello. '', Write '' there''] Returns) ! 0) = Returned False \<and>
   returned (nativeGenerateStream setupOk refusing Map.empty 7
      [Write ''Hello. '', Write '' there''] Returns) \<and>
   flags (nativeGenerateStream setupOk refusing Map.empty 7
      [Write ''Hello. '', Write '' there''] Returns) 7 = None"
  using no_flush_after_false [of setupOk refusing Map.empty 7
      "[Write ''Hello. '', Write '' there'']" Returns]
  by (simp add: run_refused)

section \<open>Completeness of the delivered text\<close>

lemma c_str_noNul: "noNul s \<Longrightarrow> c_str s = s"
  by (simp add: noNul_def c_str_def takeWhile_eq_all_conv) metis

lemma attempts_flush: "attempts c \<le> attempts (flushToCallback jvm c)"
  by (cases "callBooleanMethod (jvm (attempts c))")
     (simp_all add: flushToCallback_def Let_def)

lemma attempts_flush_Suc:
  "buffer c \<noteq> [] \<Longrightarrow> \<not> shouldStop c \<Longrightarrow>
     attempts (flushToCallback jvm c) = Suc (attempts c)"
  by (cases "callBooleanMethod (jvm (attempts c))")
     (simp_all add: flushToCallback_def Let_def)

lemma attempts_xsputn: "attempts c \<le> attempts (fst (xsputn g jvm c s))"
  using attempts_flush [of "c\<lparr>buffer := buffer c @ s\<rparr>" jvm]
  by (simp add: xsputn_def Let_def)

lemma attempts_response: "attempts c \<le> attempts (snd (response jvm es (g, c)))"
proof (induction es arbitrary: g c)
  case Nil
  show ?case by simp
next
  case (Cons e es)
  show ?case
  proof (cases e)
    case (Write s)
    have "attempts c \<le> attempts (fst (xsputn g jvm c s))" by (rule attempts_xsputn)
    also have "\<dots> \<le> attempts (snd (response jvm es (g, fst (xsputn g jvm c s))))"
      by (rule Cons.IH)
    finally show ?thesis using Write by simp
  next
    case (Cancel q)
    then show ?thesis using Cons.IH by simp
  qed
qed

lemma flush_text:
  assumes ns: "\<not> shouldStop (flushToCallback jvm c)"
    and rc: "\<forall>i < attempts (flushToCallback jvm c).
               envObtained (jvm i) \<longrightarrow> newStringUTF_ok (jvm i)"
    and nn: "noNul (buffer c)"
  shows "text_of (flushToCallback jvm c) = text_of c \<and> noNul (buffer (flushToCallback jvm c))"
proof (cases "buffer c = [] \<or> shouldStop c")
  case True
  then show ?thesis using nn by (simp add: flushToCallback_def)
next
  case False
  then have "attempts (flushToCallback jvm c) = Suc (attempts c)"
    by (simp add: attempts_flush_Suc)
  with rc have r: "envObtained (jvm (attempts c)) \<longrightarrow> newStringUTF_ok (jvm (attempts c))"
    by simp
  show ?thesis
    using False ns r nn
    by (cases "callBooleanMethod (jvm (attempts c))")
       (auto simp: flushToCallback_def Let_def envObtained_def text_of_def
          c_str_noNul noNul_def split: if_splits)
qed

lemma xsputn_text:
  assumes ns: "\<not> shouldStop (fst (xsputn g jvm c s))"
    and rc: "\<forall>i < attempts (fst (xsputn g jvm c s)).
               envObtained (jvm i) \<longrightarrow> newStringUTF_ok (jvm i)"
    and nn: "noNul (buffer c @ s)"
  shows "text_of (fst (xsputn g jvm c s)) = text_of c @ s \<and>
         noNul (buffer (fst (xsputn g jvm c s)))"
proof -
  have nc: "\<not> shouldStop c"
    using ns by (auto simp: xsputn_stopped)
  have nf: "\<not> checkCancelFlag g (llmPtr c)"
    using ns by (auto simp: xsputn_cancelled)
  show ?thesis
  proof (cases "s = []")
    case True
    then show ?thesis using nc nf nn by (simp add: xsputn_def)
  next
    case False
    let ?c1 = "c\<lparr>buffer := buffer c @ s\<rparr>"
    show ?thesis
    proof (cases "shouldFlush (buffer c @ s) s")
      case True
      then have eq: "fst (xsputn g jvm c s) = flushToCallback jvm ?c1"
        using nc nf False by (simp add: xsputn_def Let_def)
      have "text_of (flushToCallback jvm ?c1) = text_of ?c1 \<and>
            noNul (buffer (flushToCallback jvm ?c1))"
        using ns rc nn unfolding eq by (intro flush_text) simp_all
      then show ?thesis unfolding eq by (simp add: text_of_def)
    next
      case nofl: False
      then have eq: "fst (xsputn g jvm c s) = ?c1"
        using nc nf False by (simp add: xsputn_def Let_def)
      show ?thesis unfolding eq using nn by (simp add: text_of_def)
    qed
  qed
qed

lemma response_text:
  assumes "\<not> shouldStop (snd (response jvm es (g, c)))"
    and "\<forall>i < attempts (snd (response jvm es (g, c))).
           envObtained (jvm i) \<longrightarrow> newStringUTF_ok (jvm i)"
    and "noNul (buffer c)" and "noNul (written es)"
  shows "text_of (snd (response jvm es (g, c))) = text_of c @ written es \<and>
         noNul (buffer (snd (response jvm es (g, c))))"
  using assms
proof (induction es arbitrary: g c)
  case Nil
  then show ?case by simp
next
  case (Cons e es)
  show ?case
  proof (cases e)
    case (Write s)
    let ?c1 = "fst (xsputn g jvm c s)"
    let ?F = "snd (response jvm es (g, ?c1))"
    have F: "snd (response jvm (e # es) (g, c)) = ?F" using Write by simp
    have ns: "\<not> shouldStop ?F"
      and rc: "\<forall>i < attempts ?F. envObtained (jvm i) \<longrightarrow> newStringUTF_ok (jvm i)"
      using Cons.prems(1,2) unfolding F by simp_all
    have ns1: "\<not> shouldStop ?c1"
      using ns response_stopped [of ?c1 jvm es g] by auto
    have rc1: "\<forall>i < attempts ?c1. envObtained (jvm i) \<longrightarrow> newStringUTF_ok (jvm i)"
      using rc attempts_response [of ?c1 jvm es g] by auto
    have nn1: "noNul (buffer c @ s)" and nn2: "noNul (written es)"
      using Cons.prems(3,4) Write by (simp_all add: noNul_def)
    have step: "text_of ?c1 = text_of c @ s \<and> noNul (buffer ?c1)"
      using ns1 rc1 nn1 by (rule xsputn_text)
    have "text_of ?F = text_of ?c1 @ written es \<and> noNul (buffer ?F)"
      using ns rc step nn2 by (intro Cons.IH) simp_all
    then show ?thesis unfolding F using step Write by simp
  next
    case (Cancel q)
    then show ?thesis using Cons by simp
  qed
qed

lemma finalFlush_text:
  assumes ns: "\<not> shouldStop (finalFlush jvm c)"
    and rc: "\<forall>i < attempts (finalFlush jvm c).
               envObtained (jvm i) \<longrightarrow> newStringUTF_ok (jvm i)"
    and lst: "\<forall>i. Suc i = attempts (finalFlush jvm c) \<longrightarrow> envObtained (jvm i)"
    and nn: "noNul (buffer c)"
  shows "concat (map fst (delivered (finalFlush jvm c))) = text_of c"
proof (cases "buffer c = []")
  case True
  then show ?thesis by (simp add: finalFlush_def text_of_def)
next
  case False
  have nc: "\<not> shouldStop c"
    using ns by (auto simp: finalFlush_stopped)
  have eq: "finalFlush jvm c = flushToCallback jvm c"
    using False nc by (simp add: finalFlush_def)
  have t: "text_of (flushToCallback jvm c) = text_of c"
    using ns rc nn unfolding eq by (simp add: flush_text)
  have "envObtained (jvm (attempts c))"
    using lst False nc unfolding eq by (simp add: attempts_flush_Suc)
  then have "buffer (flushToCallback jvm c) = []"
    using False nc
    by (cases "callBooleanMethod (jvm (attempts c))")
       (auto simp: flushToCallback_def Let_def envObtained_def)
  with t show ?thesis unfolding eq by (simp add: text_of_def)
qed

text \<open>
  Claim C1, as stated, fails. The three requests below complete and return true, are
  not cancelled and never close the latch. In the first the engine writes the four
  bytes \<open>a\<close>, NUL, \<open>b\<close>, \<open>.\<close> and every JNI call succeeds: the consumer is
  called with \<open>a\<close> only, because the Java string is built from
  \<open>buffer.c_str()\<close>. In the second the engine writes \<open>Hello.\<close> and
  \<open>NewStringUTF\<close> returns null: the failure is logged, the buffer is cleared, and the
  consumer is not called. In the third the engine writes \<open>Hello. \<close> and
  \<open> there\<close> and \<open>GetEnv\<close> fails at the final flush: the flush returns at once
  and \<open> there\<close> is never delivered.
\<close>

theorem delivered_text_incomplete:
  "returned (nativeGenerateStream setupOk cooperative Map.empty 7
     [Write [CHR ''a'', CHR 0x00, CHR ''b'', CHR ''.'']] Returns) \<and>
   \<not> shouldStop (finalFlush cooperative (snd (runResponse cooperative Map.empty 7
     [Write [CHR ''a'', CHR 0x00, CHR ''b'', CHR ''.'']]))) \<and>
   written [Write [CHR ''a'', CHR 0x00, CHR ''b'', CHR ''.'']] =
     [CHR ''a'', CHR 0x00, CHR ''b'', CHR ''.''] \<and>
   chunks (nativeGenerateStream setupOk cooperative Map.empty 7
     [Write [CHR ''a'', CHR 0x00, CHR ''b'', CHR ''.'']] Returns) = [(''a'', Returned True)] \<and>
   returned (nativeGenerateStream setupOk stringFails Map.empty 7 [Write ''Hello.''] Returns) \<and>
   \<not> shouldStop (finalFlush stringFails (snd (runResponse stringFails Map.empty 7
     [Write ''Hello.'']))) \<and>
   written [Write ''Hello.''] = ''Hello.'' \<and>
   chunks (nativeGenerateStream setupOk stringFails Map.empty 7 [Write ''Hello.''] Returns) = [] \<and>
   returned (nativeGenerateStream setupOk (envFailsAt 1) Map.empty 7
     [Write ''Hello. '', Write '' there''] Returns) \<and>
   \<not> shouldStop (finalFlush (envFailsAt 1) (snd (runResponse (envFailsAt 1) Map.empty 7
     [Write ''Hello. '', Write '' there'']))) \<and>
   written [Write ''Hello. '', Write '' there''] = ''Hello.  there'' \<and>
   chunks (nativeGenerateStream setupOk (envFailsAt 1) Map.empty 7
     [Write ''Hello. '', Write '' there''] Returns) = [(''Hello. '', Returned True)]"
  by (simp add: relay_eval)

text \<open>
  Claim C1 (amended). For every request with a non-zero handle whose setup succeeds
  and whose engine call returns, if the stop latch is still open after the final flush
  (so no cancellation was observed and no call of the consumer asked to stop), the text
  the engine wrote holds no NUL byte, every attempted flush that obtained the JNI
  environment also obtained its Java string, and the last attempted flush obtained the
  environment, then the request returns true and the byte strings handed to
  \<open>NewStringUTF\<close> for the calls of the consumer, concatenated in order of delivery
  and including the final flush, are the text the engine wrote. A flush attempt before
  the last that fails to obtain the environment loses nothing. Which Java string the
  consumer sees for a chunk is the decoding of those bytes by \<open>NewStringUTF\<close> and is
  not part of the statement.
\<close>

theorem delivered_text_complete:
  assumes "p \<noteq> 0"
    and "getJavaVM_ok setup \<and> onTokenMethod_found setup \<and> newGlobalRef_ok setup"
    and "\<not> shouldStop (finalFlush jvm (snd (runResponse jvm g p events)))"
    and "noNul (written events)"
    and "\<forall>i < attempts (finalFlush jvm (snd (runResponse jvm g p events))).
           envObtained (jvm i) \<longrightarrow> newStringUTF_ok (jvm i)"
    and "\<forall>i. Suc i = attempts (finalFlush jvm (snd (runResponse jvm g p events))) \<longrightarrow>
           envObtained (jvm i)"
  shows "returned (nativeGenerateStream setup jvm g p events Returns) \<and>
         concat (map fst (chunks (nativeGenerateStream setup jvm g p events Returns))) =
           written events"
proof -
  let ?c = "snd (runResponse jvm g p events)"
  have ns: "\<not> shouldStop ?c"
    using assms(3) by (auto simp: finalFlush_stopped)
  have "attempts ?c \<le> attempts (finalFlush jvm ?c)"
    by (simp add: finalFlush_def attempts_flush)
  with assms(5)
  have rc: "\<forall>i < attempts ?c. envObtained (jvm i) \<longrightarrow> newStringUTF_ok (jvm i)"
    by auto
  have run: "text_of ?c = text_of (initialContext p) @ written events \<and> noNul (buffer ?c)"
    using ns rc assms(4) unfolding runResponse_def
    by (intro response_text) (simp_all add: initialContext_def noNul_def)
  have "concat (map fst (delivered (finalFlush jvm ?c))) = text_of ?c"
    using assms(3,5,6) run by (intro finalFlush_text) simp_all
  then have "concat (map fst (delivered (finalFlush jvm ?c))) = written events"
    using run by (simp add: text_of_def initialContext_def)
  then show ?thesis
    using assms(1,2) by (simp add: nativeGenerateStream_def split_beta)
qed

lemma run_retry:
  "runResponse (envFailsAt 0) g 7 [Write ''Hello. '', Write '' there''] =
     (g(7 \<mapsto> False),
      \<lparr>buffer = ''Hello.  there'', shouldStop = False, llmPtr = 7, attempts = 1,
       delivered = []\<rparr>)"
  by (simp add: relay_eval)

lemma run_retry_final:
  "finalFlush (envFailsAt 0)
     (snd (runResponse (envFailsAt 0) g 7 [Write ''Hello. '', Write '' there''])) =
     \<lparr>buffer = [], shouldStop = False, llmPtr = 7, attempts = 2,
      delivered = [(''Hello.  there'', Returned True)]\<rparr>"
  by (simp add: run_retry) (simp add: relay_eval)

theorem delivered_text_complete_witness:
  "chunks (nativeGenerateStream setupOk cooperative Map.empty 7
      [Write ''Hello. '', Write '' there''] Returns) =
     [(''Hello. '', Returned True), ('' there'', Returned True)] \<and>
   returned (nativeGenerateStream setupOk cooperative Map.empty 7
      [Write ''Hello. '', Write '' there''] Returns) \<and>
   concat (map fst (chunks (nativeGenerateStream setupOk cooperative Map.empty 7
      [Write ''Hello. '', Write '' there''] Returns))) = ''Hello.  there'' \<and>
   \<not> envObtained (envFailsAt 0 0) \<and>
   chunks (nativeGenerateStream setupOk (envFailsAt 0) Map.empty 7
      [Write ''Hello. '', Write '' there''] Returns) = [(''Hello.  there'', Returned True)] \<and>
   returned (nativeGenerateStream setupOk (envFailsAt 0) Map.empty 7
      [Write ''Hello. '', Write '' there''] Returns) \<and>
   concat (map fst (chunks (nativeGenerateStream setupOk (envFailsAt 0) Map.empty 7
      [Write ''Hello. '', Write '' there''] Returns))) = ''Hello.  there''"
proof -
  have 1: "(7 :: jlong) \<noteq> 0" by simp
  have 2: "getJavaVM_ok setupOk \<and> onTokenMethod_found setupOk \<and> newGlobalRef_ok setupOk"
    by (simp add: setupOk_def)
  have 3: "\<not> shouldStop (finalFlush cooperative
      (snd (runResponse cooperative Map.empty 7 [Write ''Hello. '', Write '' there''])))"
    by (simp add: run_hello_final)
  have 4: "noNul (written [Write ''Hello. '', Write '' there''])"
    by (simp add: noNul_def)
  have 5: "\<forall>i < attempts (finalFlush cooperative
      (snd (runResponse cooperative Map.empty 7 [Write ''Hello. '', Write '' there'']))).
        envObtained (cooperative i) \<longrightarrow> newStringUTF_ok (cooperative i)"
    by (simp add: cooperative_def)
  have 6: "\<forall>i. Suc i = attempts (finalFlush cooperative
      (snd (runResponse cooperative Map.empty 7 [Write ''Hello. '', Write '' there'']))) \<longrightarrow>
        envObtained (cooperative i)"
    by (simp add: cooperative_def envObtained_def)
  have 7: "\<not> shouldStop (finalFlush (envFailsAt 0)
      (snd (runResponse (envFailsAt 0) Map.empty 7 [Write ''Hello. '', Write '' there''])))"
    by (simp add: run_retry_final)
  have 8: "\<forall>i < attempts (finalFlush (envFailsAt 0)
      (snd (runResponse (envFailsAt 0) Map.empty 7 [Write ''Hello. '', Write '' there'']))).
        envObtained (envFailsAt 0 i) \<longrightarrow> newStringUTF_ok (envFailsAt 0 i)"
    by (simp add: envFailsAt_def)
  have 9: "\<forall>i. Suc i = attempts (finalFlush (envFailsAt 0)
      (snd (runResponse (envFailsAt 0) Map.empty 7 [Write ''Hello. '', Write '' there'']))) \<longrightarrow>
        envObtained (envFailsAt 0 i)"
    unfolding run_retry_final by (auto simp: envFailsAt_def envObtained_def)
  have a: "chunks (nativeGenerateStream setupOk cooperative Map.empty 7
      [Write ''Hello. '', Write '' there''] Returns) =
     [(''Hello. '', Returned True), ('' there'', Returned True)]"
    by (simp add: nativeGenerateStream_def setupOk_def split_beta run_hello_final)
  have b: "chunks (nativeGenerateStream setupOk (envFailsAt 0) Map.empty 7
      [Write ''Hello. '', Write '' there''] Returns) = [(''Hello.  there'', Returned True)]"
    by (simp add: nativeGenerateStream_def setupOk_def split_beta run_retry_final)
  have c: "\<not> envObtained (envFailsAt 0 0)"
    by (simp add: envFailsAt_def envObtained_def)
  show ?thesis
    using delivered_text_complete [OF 1 2 3 4 5 6] delivered_text_complete [OF 1 2 7 4 8 9]
      a b c
    by simp
qed

section \<open>One append, one decision\<close>

lemma shouldFlush_rules:
  "shouldFlush buf s =
     (16 \<le> length buf \<or>
      (\<exists>ch \<in> set s. ch = CHR 0x0A \<or> ch = CHR ''.'' \<or> ch = CHR ''!'' \<or> ch = CHR ''?'') \<or>
      (3 \<le> length buf \<and>
       map uchar (drop (length buf - 3) buf) \<in>
         {[0xE3, 0x80, 0x82], [0xEF, 0xBC, 0x81], [0xEF, 0xBC, 0x9F]}))"
proof (cases "3 \<le> length buf")
  case True
  then show ?thesis
    by (simp add: shouldFlush_def list_ex_iff isAsciiDelimiter_def isFullWidthEnd_bytes)
next
  case False
  then show ?thesis
    by (simp add: shouldFlush_def list_ex_iff isAsciiDelimiter_def)
qed

lemma flush_exact:
  assumes "buffer c \<noteq> []" and "\<not> shouldStop c"
  shows "delivered (flushToCallback jvm c) =
           delivered c @
             (if reachesConsumer (jvm (attempts c))
              then [(c_str (buffer c), callBooleanMethod (jvm (attempts c)))] else []) \<and>
         buffer (flushToCallback jvm c) =
           (if envObtained (jvm (attempts c)) then [] else buffer c)"
  using assms
  by (cases "callBooleanMethod (jvm (attempts c))")
     (auto simp: flushToCallback_def Let_def reachesConsumer_def envObtained_def)

lemma xsputn_open:
  assumes "\<not> shouldStop c" and "\<not> checkCancelFlag g (llmPtr c)" and "s \<noteq> []"
  shows "xsputn g jvm c s =
           (if shouldFlush (buffer c @ s) s then flushToCallback jvm (c\<lparr>buffer := buffer c @ s\<rparr>)
            else c\<lparr>buffer := buffer c @ s\<rparr>,
            int (length s))"
  using assms by (simp add: xsputn_def Let_def)

text \<open>
  Claim C3, as stated, fails: a rule can match without a flush to the consumer. Below,
  16 letters are written to an empty buffer, so the length rule matches. When
  \<open>NewStringUTF\<close> returns null, the 16 bytes are discarded and the consumer is not
  called. When \<open>GetEnv\<close> fails, the consumer is not called and the 16 bytes stay in
  the buffer; the next write of one letter then delivers them in one chunk of 17 bytes.
\<close>

theorem rule_matches_without_delivery:
  "shouldFlush ''abcdefghijklmnop'' ''abcdefghijklmnop'' \<and>
   xsputn Map.empty stringFails (initialContext 7) ''abcdefghijklmnop'' =
     (\<lparr>buffer = [], shouldStop = False, llmPtr = 7, attempts = 1, delivered = []\<rparr>, 16) \<and>
   xsputn Map.empty (envFailsAt 0) (initialContext 7) ''abcdefghijklmnop'' =
     (\<lparr>buffer = ''abcdefghijklmnop'', shouldStop = False, llmPtr = 7, attempts = 1,
       delivered = []\<rparr>, 16) \<and>
   snd (response (envFailsAt 0) [Write ''abcdefghijklmnop'', Write ''q'']
          (Map.empty, initialContext 7)) =
     \<lparr>buffer = [], shouldStop = False, llmPtr = 7, attempts = 2,
      delivered = [(''abcdefghijklmnopq'', Returned True)]\<rparr>"
  by (simp add: relay_eval)

text \<open>
  Claim C3 (amended). On a write of at least one byte with the latch open and the flag
  not set, all bytes are accepted and appended, and a flush is attempted on the appended
  buffer exactly when a rule matches: the buffer holds 16 bytes or more, or the bytes
  just written hold \<open>.\<close>, \<open>!\<close>, \<open>?\<close> or a newline, or the last three bytes of
  the buffer are E3 80 82, EF BC 81 or EF BC 9F. There is one attempt however many rules
  match: the count of flush attempts grows by one when a rule matches and by none
  otherwise. The attempt calls the consumer, once, exactly when it obtains the JNI
  environment and the Java string; the chunk is then the whole buffer, up to its first
  NUL byte if it has one. The buffer is emptied exactly when a rule matches and the
  environment is obtained; otherwise it keeps every byte. So 16 letters written to an
  empty buffer give one flush attempt, which delivers those 16 bytes when it obtains the
  environment and the string.
\<close>

theorem flush_decision:
  assumes "\<not> shouldStop c" and "\<not> checkCancelFlag g (llmPtr c)" and "s \<noteq> []"
  shows "snd (xsputn g jvm c s) = int (length s) \<and>
         shouldFlush (buffer c @ s) s =
           (16 \<le> length (buffer c @ s) \<or>
            (\<exists>ch \<in> set s. ch = CHR 0x0A \<or> ch = CHR ''.'' \<or> ch = CHR ''!'' \<or> ch = CHR ''?'') \<or>
            (3 \<le> length (buffer c @ s) \<and>
             map uchar (drop (length (buffer c @ s) - 3) (buffer c @ s)) \<in>
               {[0xE3, 0x80, 0x82], [0xEF, 0xBC, 0x81], [0xEF, 0xBC, 0x9F]})) \<and>
         fst (xsputn g jvm c s) =
           (if shouldFlush (buffer c @ s) s
            then flushToCallback jvm (c\<lparr>buffer := buffer c @ s\<rparr>)
            else c\<lparr>buffer := buffer c @ s\<rparr>) \<and>
         attempts (fst (xsputn g jvm c s)) =
           attempts c + (if shouldFlush (buffer c @ s) s then 1 else 0) \<and>
         delivered (fst (xsputn g jvm c s)) =
           delivered c @
             (if shouldFlush (buffer c @ s) s \<and> reachesConsumer (jvm (attempts c))
              then [(c_str (buffer c @ s), callBooleanMethod (jvm (attempts c)))]
              else []) \<and>
         buffer (fst (xsputn g jvm c s)) =
           (if shouldFlush (buffer c @ s) s \<and> envObtained (jvm (attempts c))
            then [] else buffer c @ s)"
proof -
  let ?c1 = "c\<lparr>buffer := buffer c @ s\<rparr>"
  have x: "xsputn g jvm c s =
             (if shouldFlush (buffer c @ s) s then flushToCallback jvm ?c1 else ?c1,
              int (length s))"
    using assms by (rule xsputn_open)
  have ne: "buffer ?c1 \<noteq> []" and op: "\<not> shouldStop ?c1"
    using assms by simp_all
  have a: "attempts (flushToCallback jvm ?c1) = Suc (attempts c)"
    using attempts_flush_Suc [OF ne op, of jvm] by simp
  have d: "delivered (flushToCallback jvm ?c1) =
             delivered c @
               (if reachesConsumer (jvm (attempts c))
                then [(c_str (buffer c @ s), callBooleanMethod (jvm (attempts c)))] else []) \<and>
           buffer (flushToCallback jvm ?c1) =
             (if envObtained (jvm (attempts c)) then [] else buffer c @ s)"
    using flush_exact [OF ne op, of jvm] by simp
  show ?thesis
  proof (intro conjI)
    show "snd (xsputn g jvm c s) = int (length s)"
      by (simp add: x)
    show "shouldFlush (buffer c @ s) s =
           (16 \<le> length (buffer c @ s) \<or>
            (\<exists>ch \<in> set s. ch = CHR 0x0A \<or> ch = CHR ''.'' \<or> ch = CHR ''!'' \<or> ch = CHR ''?'') \<or>
            (3 \<le> length (buffer c @ s) \<and>
             map uchar (drop (length (buffer c @ s) - 3) (buffer c @ s)) \<in>
               {[0xE3, 0x80, 0x82], [0xEF, 0xBC, 0x81], [0xEF, 0xBC, 0x9F]}))"
      by (rule shouldFlush_rules)
    show "fst (xsputn g jvm c s) =
           (if shouldFlush (buffer c @ s) s
            then flushToCallback jvm (c\<lparr>buffer := buffer c @ s\<rparr>)
            else c\<lparr>buffer := buffer c @ s\<rparr>)"
      by (simp add: x)
    show "attempts (fst (xsputn g jvm c s)) =
           attempts c + (if shouldFlush (buffer c @ s) s then 1 else 0)"
      using a by (simp add: x)
    show "delivered (fst (xsputn g jvm c s)) =
           delivered c @
             (if shouldFlush (buffer c @ s) s \<and> reachesConsumer (jvm (attempts c))
              then [(c_str (buffer c @ s), callBooleanMethod (jvm (attempts c)))]
              else [])"
      using d by (simp add: x)
    show "buffer (fst (xsputn g jvm c s)) =
           (if shouldFlush (buffer c @ s) s \<and> envObtained (jvm (attempts c))
            then [] else buffer c @ s)"
      using d by (simp add: x)
  qed
qed

theorem flush_decision_witness:
  "xsputn Map.empty cooperative (initialContext 7) ''abcdefghijklmnop'' =
     (\<lparr>buffer = [], shouldStop = False, llmPtr = 7, attempts = 1,
       delivered = [(''abcdefghijklmnop'', Returned True)]\<rparr>, 16) \<and>
   xsputn Map.empty cooperative (initialContext 7) ''abcdefghijklmno'' =
     (\<lparr>buffer = ''abcdefghijklmno'', shouldStop = False, llmPtr = 7, attempts = 0,
       delivered = []\<rparr>, 15) \<and>
   xsputn Map.empty cooperative ((initialContext 7)\<lparr>buffer := ''abcdefghijklmno''\<rparr>) ''.'' =
     (\<lparr>buffer = [], shouldStop = False, llmPtr = 7, attempts = 1,
       delivered = [(''abcdefghijklmno.'', Returned True)]\<rparr>, 1) \<and>
   xsputn Map.empty (envFailsAt 0) (initialContext 7) ''abcdefghijklmnop'' =
     (\<lparr>buffer = ''abcdefghijklmnop'', shouldStop = False, llmPtr = 7, attempts = 1,
       delivered = []\<rparr>, 16) \<and>
   snd (response cooperative
          [Write ''a'', Write ''b'', Write ''c'', Write ''d'', Write ''e'', Write ''f'',
           Write ''g'', Write ''h'', Write ''i'', Write ''j'', Write ''k'', Write ''l'',
           Write ''m'', Write ''n'', Write ''o'', Write ''p'']
          (Map.empty, initialContext 7)) =
     \<lparr>buffer = [], shouldStop = False, llmPtr = 7, attempts = 1,
      delivered = [(''abcdefghijklmnop'', Returned True)]\<rparr>"
  using flush_decision [of "initialContext 7" Map.empty "''abcdefghijklmnop''" cooperative]
    flush_decision [of "initialContext 7" Map.empty "''abcdefghijklmno''" cooperative]
    flush_decision [of "(initialContext 7)\<lparr>buffer := ''abcdefghijklmno''\<rparr>" Map.empty "''.''"
      cooperative]
    flush_decision [of "initialContext 7" Map.empty "''abcdefghijklmnop''" "envFailsAt 0"]
  by (simp add: relay_eval)

section \<open>Registration and teardown of the flag\<close>

text \<open>
  Claim C5, as stated, fails: the three early returns of the setup (no Java VM, no
  \<open>onToken\<close> method, no global reference) leave without clearing. With an entry
  left by an earlier cancel request, the invocation below returns false and the entry is
  still in the table.
\<close>

theorem stale_flag_survives_failed_setup:
  "(7 :: jlong) \<noteq> 0 \<and>
   flags (nativeGenerateStream setupNoMethod cooperative (nativeCancel Map.empty 7) 7
            [] Returns) 7 = Some True \<and>
   \<not> returned (nativeGenerateStream setupNoMethod cooperative (nativeCancel Map.empty 7) 7
            [] Returns)"
  by (simp add: relay_eval)

text \<open>
  Claim C5 (amended). For every invocation with a non-zero handle whose setup
  succeeds, the table at return is the table the engine run left, with the handle's
  entry erased by one \<open>clearCancelFlag\<close>, on the path where the engine returns and
  on both exception paths alike; the result is true exactly on the first. When the setup
  fails, the invocation returns false and leaves the table as it found it.
\<close>

theorem flag_cleared_after_setup:
  assumes "p \<noteq> 0"
  shows "(getJavaVM_ok setup \<and> onTokenMethod_found setup \<and> newGlobalRef_ok setup \<longrightarrow>
            flags (nativeGenerateStream setup jvm g p events exit) =
              clearCancelFlag (fst (runResponse jvm g p events)) p \<and>
            flags (nativeGenerateStream setup jvm g p events exit) p = None \<and>
            returned (nativeGenerateStream setup jvm g p events exit) = (exit = Returns)) \<and>
         (\<not> (getJavaVM_ok setup \<and> onTokenMethod_found setup \<and> newGlobalRef_ok setup) \<longrightarrow>
            flags (nativeGenerateStream setup jvm g p events exit) = g \<and>
            \<not> returned (nativeGenerateStream setup jvm g p events exit) \<and>
            chunks (nativeGenerateStream setup jvm g p events exit) = [])"
  using assms
  by (cases exit)
     (auto simp: nativeGenerateStream_def split_beta clearCancelFlag_def)

theorem flag_cleared_after_setup_witness:
  "flags (nativeGenerateStream setupOk cooperative [7 \<mapsto> True] 7
            [Write ''Hi'', Cancel 7] Returns) 7 = None \<and>
   flags (nativeGenerateStream setupOk cooperative [7 \<mapsto> True] 7
            [Write ''Hi'', Cancel 7] ThrowsStdException) 7 = None \<and>
   flags (nativeGenerateStream setupOk cooperative [7 \<mapsto> True] 7
            [Write ''Hi'', Cancel 7] ThrowsUnknown) 7 = None \<and>
   flags (nativeGenerateStream setupNoMethod cooperative [7 \<mapsto> True] 7
            [Write ''Hi'', Cancel 7] Returns) = [7 \<mapsto> True]"
proof -
  have 1: "(7 :: jlong) \<noteq> 0" by simp
  show ?thesis
    using flag_cleared_after_setup [OF 1, of setupOk cooperative "[7 \<mapsto> True]"
        "[Write ''Hi'', Cancel 7]" Returns]
      flag_cleared_after_setup [OF 1, of setupOk cooperative "[7 \<mapsto> True]"
        "[Write ''Hi'', Cancel 7]" ThrowsStdException]
      flag_cleared_after_setup [OF 1, of setupOk cooperative "[7 \<mapsto> True]"
        "[Write ''Hi'', Cancel 7]" ThrowsUnknown]
      flag_cleared_after_setup [OF 1, of setupNoMethod cooperative "[7 \<mapsto> True]"
        "[Write ''Hi'', Cancel 7]" Returns]
    by (simp add: setupOk_def setupNoMethod_def clearCancelFlag_def)
qed

lemma run_hello_result:
  "nativeGenerateStream setupOk cooperative g 7 [Write ''Hello. '', Write '' there''] Returns =
     \<lparr>returned = True, flags = g(7 := None),
      chunks = [(''Hello. '', Returned True), ('' there'', Returned True)]\<rparr>"
  by (simp add: nativeGenerateStream_def setupOk_def split_beta run_hello_final)
     (simp add: run_hello clearCancelFlag_def)

text \<open>
  Claim C9. Once the setup has succeeded, a request with a non-zero handle starts the
  engine with the handle's flag reading false, whatever the table held for the handle
  before: the request's result does not depend on the prior entry. So a cancel request
  made before the request started does not change the result, and the first write of at
  least one byte is accepted in full.
\<close>

theorem flag_reset_at_start:
  assumes "p \<noteq> 0"
    and "getJavaVM_ok setup \<and> onTokenMethod_found setup \<and> newGlobalRef_ok setup"
  shows "checkCancelFlag (fst (runResponse jvm g p [])) p = False \<and>
         nativeGenerateStream setup jvm (g(p := x)) p events exit =
           nativeGenerateStream setup jvm g p events exit \<and>
         nativeGenerateStream setup jvm (nativeCancel g p) p events exit =
           nativeGenerateStream setup jvm g p events exit \<and>
         (s \<noteq> [] \<longrightarrow>
            snd (xsputn (fst (runResponse jvm (nativeCancel g p) p [])) jvm
                   (snd (runResponse jvm (nativeCancel g p) p [])) s) = int (length s))"
  using assms
  by (simp add: nativeGenerateStream_def runResponse_def nativeCancel_def setCancelFlag_def
      checkCancelFlag_def initialContext_def xsputn_def Let_def)

theorem flag_reset_at_start_witness:
  "checkCancelFlag (nativeCancel Map.empty 7) 7 \<and>
   nativeGenerateStream setupOk cooperative (nativeCancel Map.empty 7) 7
       [Write ''Hello. '', Write '' there''] Returns =
     \<lparr>returned = True, flags = Map.empty,
      chunks = [(''Hello. '', Returned True), ('' there'', Returned True)]\<rparr>"
proof -
  have 1: "(7 :: jlong) \<noteq> 0" by simp
  have 2: "getJavaVM_ok setupOk \<and> onTokenMethod_found setupOk \<and> newGlobalRef_ok setupOk"
    by (simp add: setupOk_def)
  have 3: "checkCancelFlag (nativeCancel Map.empty 7) 7"
    by (simp add: nativeCancel_def setCancelFlag_def checkCancelFlag_def)
  show ?thesis
    using 3 flag_reset_at_start [OF 1 2, of cooperative Map.empty _
        "[Write ''Hello. '', Write '' there'']" Returns]
    by (simp add: run_hello_result)
qed

section \<open>The tensor data setters\<close>

text \<open>
  Claim C10. For every non-zero handle and every input array, both setters return true
  when \<open>writeMap\<close> gives a null pointer, and the variable's storage is unchanged: a
  true result does not say that the data was stored. A setter returns false only when
  the handle is zero or \<open>writeMap\<close> threw a \<open>std::exception\<close>.
\<close>

theorem setVarData_true_without_copy:
  "(varPtr \<noteq> 0 \<longrightarrow>
      nativeSetVarFloatData varPtr host NullPtr jdata = Inr (True, host) \<and>
      nativeSetVarIntData varPtr host NullPtr jdata = Inr (True, host)) \<and>
   (nativeSetVarFloatData varPtr host wm jdata = Inr (False, host') \<longrightarrow>
      varPtr = 0 \<or> wm = WriteMapThrowsStd) \<and>
   (nativeSetVarIntData varPtr host wm jdata = Inr (False, host') \<longrightarrow>
      varPtr = 0 \<or> wm = WriteMapThrowsStd)"
  by (cases wm)
     (auto simp: nativeSetVarFloatData_def nativeSetVarIntData_def split: sum.splits)

theorem setVarData_true_without_copy_witness:
  "nativeSetVarFloatData 7 [0, 0] NullPtr [5, 6] = Inr (True, [0, 0]) \<and>
   nativeSetVarIntData 7 [0, 0] NullPtr [5, 6] = Inr (True, [0, 0]) \<and>
   nativeSetVarFloatData 7 [0, 0] Ptr [5, 6] = Inr (True, [5, 6])"
  using setVarData_true_without_copy [of 7 "[0, 0]" "[5, 6]" NullPtr "[0, 0]"]
  by (simp add: nativeSetVarFloatData_def memcpy_elems_def)

end
